theory Spec2Isabelle
  imports Complex_Main "HOL-Library.Log_Nat" "HOL-Library.Sublist"
begin

section \<open>The OCR demo script \<open>GOT/demo/run_ocr_2.0.py\<close>\<close>

text \<open>
  The script has one function of interest, \<open>eval_model\<close>. Its deterministic parts are
  embedded here in the order of the source: the scaling of the box coordinates to the
  0..1000 grid, the construction of the instruction string \<open>qs\<close>, the cleaning of the
  decoded text, the write of the plain-text file and the three rendering branches.
  The model, the tokenizer, the conversation template and the music toolkit are
  external; where the script needs a value of theirs it is a parameter.

  Python's \<open>str\<close> is modelled as \<open>string\<close>; every character test of the script is
  against an ASCII character. Python's \<open>int\<close> is \<open>int\<close>. An exception is a value
  \<open>Inl e\<close> of a sum type, named as Python names it.
\<close>

datatype error =
    ZeroDivisionError
  | OverflowError
  | IndexError
  | IOError
  | ToolkitError

subsection \<open>Python floats\<close>

text \<open>
  \<open>bbox[0] / w * 1000\<close> is computed in binary64 floating point: the true division of two
  ints gives the double nearest to the exact quotient (ties to even), the product with
  1000 is rounded the same way, and \<open>int(...)\<close> truncates towards zero. A finite double
  is modelled by the rational it denotes. \<open>round_double\<close> is the rounding to 53
  significant bits with the exponent bounded below (subnormal numbers); a result of
  magnitude \<open>2 ^ 1024\<close> or more is out of range.
\<close>

definition floor_log2 :: "rat \<Rightarrow> int" where
  "floor_log2 q =
     (let (a, b) = quotient_of q; d = bitlen a - bitlen b
      in if 2 powi d \<le> q then d else d - 1)"

definition round_half_even :: "rat \<Rightarrow> int" where
  "round_half_even q =
     (let f = \<lfloor>q\<rfloor>; d = q - of_int f
      in if d < 1 / 2 then f
         else if 1 / 2 < d then f + 1
         else if even f then f else f + 1)"

definition round_double :: "rat \<Rightarrow> rat" where
  "round_double q =
     (if q = 0 then 0
      else let e = max (floor_log2 \<bar>q\<bar> - 52) (- 1074);
               m = round_half_even (\<bar>q\<bar> / 2 powi e)
           in sgn q * of_int m * 2 powi e)"

definition out_of_range :: "rat \<Rightarrow> bool" where
  "out_of_range r = (2 ^ 1024 \<le> \<bar>r\<bar>)"

datatype pyfloat = Finite rat | Infinity

text \<open>\<open>a / b\<close> on ints: raises on a zero divisor and on a quotient too large for a float.\<close>

definition true_divide :: "int \<Rightarrow> int \<Rightarrow> error + pyfloat" where
  "true_divide a b =
     (if b = 0 then Inl ZeroDivisionError
      else let r = round_double (of_int a / of_int b)
           in if out_of_range r then Inl OverflowError else Inr (Finite r))"

text \<open>\<open>x * k\<close> for a float \<open>x\<close> and a small int \<open>k\<close>: overflow gives an infinity, no exception.\<close>

definition float_mul :: "pyfloat \<Rightarrow> int \<Rightarrow> pyfloat" where
  "float_mul x k =
     (case x of
        Infinity \<Rightarrow> Infinity
      | Finite r \<Rightarrow>
          (let p = round_double (r * of_int k)
           in if out_of_range p then Infinity else Finite p))"

text \<open>\<open>int(x)\<close>: truncation towards zero; an infinity raises OverflowError.\<close>

definition int_of_float :: "pyfloat \<Rightarrow> error + int" where
  "int_of_float x =
     (case x of
        Infinity \<Rightarrow> Inl OverflowError
      | Finite r \<Rightarrow> Inr (if 0 \<le> r then \<lfloor>r\<rfloor> else \<lceil>r\<rceil>))"

subsection \<open>Coordinate normalisation (lines 73 to 80)\<close>

text \<open>\<open>int(c / d * 1000)\<close> for one coordinate \<open>c\<close> and one image dimension \<open>d\<close>.\<close>

definition scale :: "int \<Rightarrow> int \<Rightarrow> error + int" where
  "scale c d =
     (case true_divide c d of
        Inl e \<Rightarrow> Inl e
      | Inr f \<Rightarrow> int_of_float (float_mul f 1000))"

text \<open>\<open>bbox[i] = int(bbox[i] / d * 1000)\<close>; the callers have checked the length.\<close>

definition scale_at :: "nat \<Rightarrow> int \<Rightarrow> int list \<Rightarrow> error + int list" where
  "scale_at i d bbox =
     (case scale (bbox ! i) d of
        Inl e \<Rightarrow> Inl e
      | Inr v \<Rightarrow> Inr (bbox[i := v]))"

definition scale_point :: "int list \<Rightarrow> int \<Rightarrow> int \<Rightarrow> error + int list" where
  "scale_point bbox w h =
     (case scale_at 0 w bbox of
        Inl e \<Rightarrow> Inl e
      | Inr b0 \<Rightarrow> scale_at 1 h b0)"

definition scale_rect :: "int list \<Rightarrow> int \<Rightarrow> int \<Rightarrow> error + int list" where
  "scale_rect bbox w h =
     (case scale_at 0 w bbox of
        Inl e \<Rightarrow> Inl e
      | Inr b0 \<Rightarrow>
          (case scale_at 1 h b0 of
             Inl e \<Rightarrow> Inl e
           | Inr b1 \<Rightarrow>
               (case scale_at 2 w b1 of
                  Inl e \<Rightarrow> Inl e
                | Inr b2 \<Rightarrow> scale_at 3 h b2)))"

text \<open>The two length tests are separate \<open>if\<close> statements; any other length falls through.\<close>

definition normalize_box :: "int list \<Rightarrow> int \<Rightarrow> int \<Rightarrow> error + int list" where
  "normalize_box bbox w h =
     (case (if length bbox = 2 then scale_point bbox w h else Inr bbox) of
        Inl e \<Rightarrow> Inl e
      | Inr b \<Rightarrow> (if length b = 4 then scale_rect b w h else Inr b))"

subsection \<open>\<open>str\<close> of an int and of a list of ints\<close>

definition digit_char :: "nat \<Rightarrow> char" where
  "digit_char d = ''0123456789'' ! d"

fun str_nat :: "nat \<Rightarrow> string" where
  "str_nat n =
     (if n < 10 then [digit_char n]
      else str_nat (n div 10) @ [digit_char (n mod 10)])"

declare str_nat.simps [simp del]

definition str_int :: "int \<Rightarrow> string" where
  "str_int i = (if i < 0 then CHR ''-'' # str_nat (nat (- i)) else str_nat (nat i))"

fun join_items :: "string list \<Rightarrow> string" where
  "join_items [] = []"
| "join_items [s] = s"
| "join_items (s # t # ts) = s @ '', '' @ join_items (t # ts)"

definition str_list :: "int list \<Rightarrow> string" where
  "str_list xs = ''['' @ join_items (map str_int xs) @ '']''"

subsection \<open>The instruction string (lines 66 to 101)\<close>

text \<open>
  The command line: \<open>box\<close> is \<open>None\<close> for the empty string (the default, falsy) and
  \<open>Some bbox\<close> for a text that \<open>eval\<close> reads as the list of ints \<open>bbox\<close>; \<open>color\<close> is
  the string as given, empty by default.
\<close>

record args =
  type :: string
  box :: "int list option"
  color :: string
  render :: bool

definition base_instruction :: "args \<Rightarrow> string" where
  "base_instruction a =
     (if type a = ''format'' then ''OCR with format: '' else ''OCR: '')"

definition box_block :: "args \<Rightarrow> int \<Rightarrow> int \<Rightarrow> string \<Rightarrow> error + string" where
  "box_block a w h qs =
     (case box a of
        None \<Rightarrow> Inr qs
      | Some bbox \<Rightarrow>
          (case normalize_box bbox w h of
             Inl e \<Rightarrow> Inl e
           | Inr b \<Rightarrow>
               Inr (if type a = ''format''
                    then str_list b @ '' '' @ ''OCR with format: ''
                    else str_list b @ '' '' @ ''OCR: '')))"

definition color_block :: "args \<Rightarrow> string \<Rightarrow> string" where
  "color_block a qs =
     (if color a \<noteq> []
      then (if type a = ''format''
            then ''['' @ color a @ ''] '' @ ''OCR with format: ''
            else ''['' @ color a @ ''] '' @ ''OCR: '')
      else qs)"

text \<open>The value of \<open>qs\<close> after line 90.\<close>

definition instruction :: "args \<Rightarrow> int \<Rightarrow> int \<Rightarrow> error + string" where
  "instruction a w h =
     (case box_block a w h (base_instruction a) of
        Inl e \<Rightarrow> Inl e
      | Inr qs \<Rightarrow> Inr (color_block a qs))"

definition image_token_len :: nat where
  "image_token_len = 256"

text \<open>The value of \<open>qs\<close> after line 101 (\<open>use_im_start_end\<close> is the constant True).\<close>

definition prompt_qs :: "args \<Rightarrow> int \<Rightarrow> int \<Rightarrow> error + string" where
  "prompt_qs a w h =
     (case instruction a w h of
        Inl e \<Rightarrow> Inl e
      | Inr qs \<Rightarrow>
          Inr (''<img>'' @ concat (replicate image_token_len ''<imgpad>'')
               @ ''</img>'' @ ''\<newline>'' @ qs))"

subsection \<open>Python string operations used by the script\<close>

text \<open>
  \<open>s.count(sub)\<close> and \<open>s.replace(old, new)\<close> scan from the left and skip over each
  occurrence they find; \<open>sub in s\<close>; \<open>s.split(sep)\<close> for a non-empty \<open>sep\<close> (both
  call sites pass a literal); \<open>s.strip()\<close>; the slice \<open>s[:-n]\<close>.
\<close>

fun count_sub :: "string \<Rightarrow> string \<Rightarrow> nat" where
  "count_sub sub [] = (if sub = [] then 1 else 0)"
| "count_sub sub (c # cs) =
     (if prefix sub (c # cs)
      then Suc (count_sub sub (drop (length sub - 1) cs))
      else count_sub sub cs)"

fun replace :: "string \<Rightarrow> string \<Rightarrow> string \<Rightarrow> string" where
  "replace old new [] = (if old = [] then new else [])"
| "replace old new (c # cs) =
     (if old = [] then new @ c # replace old new cs
      else if prefix old (c # cs)
      then new @ replace old new (drop (length old - 1) cs)
      else c # replace old new cs)"

fun contains :: "string \<Rightarrow> string \<Rightarrow> bool" where
  "contains sub [] = (sub = [])"
| "contains sub (c # cs) = (prefix sub (c # cs) \<or> contains sub cs)"

fun split_from :: "string \<Rightarrow> string \<Rightarrow> string \<Rightarrow> string list" where
  "split_from sep cur [] = [cur]"
| "split_from sep cur (c # cs) =
     (if prefix sep (c # cs)
      then cur # split_from sep [] (drop (length sep - 1) cs)
      else split_from sep (cur @ [c]) cs)"

definition split_str :: "string \<Rightarrow> string \<Rightarrow> string list" where
  "split_str sep s = split_from sep [] s"

text \<open>\<open>str.isspace\<close> on the code points below 256.\<close>

definition isspace :: "char \<Rightarrow> bool" where
  "isspace c =
     (let n = (of_char c :: nat)
      in (9 \<le> n \<and> n \<le> 13) \<or> (28 \<le> n \<and> n \<le> 32) \<or> n = 133 \<or> n = 160)"

definition strip :: "string \<Rightarrow> string" where
  "strip s = rev (dropWhile isspace (rev (dropWhile isspace s)))"

text \<open>\<open>s[:-n]\<close> for \<open>n = len(...)\<close>: with \<open>n = 0\<close> the slice is \<open>s[:0]\<close>, the empty string.\<close>

definition slice_to_neg :: "nat \<Rightarrow> string \<Rightarrow> string" where
  "slice_to_neg n s = (if n = 0 then [] else take (length s - n) s)"

text \<open>\<open>s.translate(table)\<close> for a table built by \<open>str.maketrans\<close> from a dict of strings.\<close>

definition translate :: "(char \<rightharpoonup> string) \<Rightarrow> string \<Rightarrow> string" where
  "translate table s =
     concat (map (\<lambda>c. case table c of None \<Rightarrow> [c] | Some r \<Rightarrow> r) s)"

subsection \<open>Files\<close>

text \<open>
  The files the script touches, by path. \<open>open(path, "w")\<close> followed by \<open>write\<close>
  replaces the content; \<open>open(path, "r")\<close> of a missing file raises.
\<close>

type_synonym files = "string \<rightharpoonup> string"

definition write_file :: "string \<Rightarrow> string \<Rightarrow> files \<Rightarrow> files" where
  "write_file path text fs = fs(path \<mapsto> text)"

definition read_file :: "string \<Rightarrow> files \<Rightarrow> error + string" where
  "read_file path fs = (case fs path of None \<Rightarrow> Inl IOError | Some t \<Rightarrow> Inr t)"

subsection \<open>What the script takes from outside\<close>

text \<open>
  \<open>stop_str\<close> comes from the conversation template and \<open>translation_table\<close> from
  \<open>punctuation_dict\<close>, both in modules that are not part of this file. \<open>verovio\<close>
  stands for the toolkit calls from \<open>loadData\<close> to \<open>renderToSVG\<close>: the SVG text,
  or the error they raise. \<open>svg_to_html\<close> is the imported helper: it is taken to
  write one document, computed from the SVG, to the path it is passed.
\<close>

record env =
  stop_str :: string
  translation_table :: "char \<rightharpoonup> string"
  verovio :: "string \<Rightarrow> error + string"
  svg_to_html :: "string \<Rightarrow> string"

subsection \<open>Cleaning the decoded text (lines 134 to 137)\<close>

definition clean_output :: "string \<Rightarrow> string \<Rightarrow> string" where
  "clean_output stop decoded =
     (let outputs = strip decoded;
          outputs = (if suffix stop outputs
                     then slice_to_neg (length stop) outputs
                     else outputs)
      in strip outputs)"

subsection \<open>Music notation branch (lines 144 to 165)\<close>

definition html_path_2 :: string where
  "html_path_2 = ''./results/demo.html''"

definition render_music :: "env \<Rightarrow> string \<Rightarrow> files \<Rightarrow> error option \<times> files" where
  "render_music ev outputs fs =
     (case verovio ev outputs of
        Inl e \<Rightarrow> (Some e, fs)
      | Inr svg \<Rightarrow>
          (let svg = replace (''overflow='' @ [CHR 0x22] @ ''inherit'' @ [CHR 0x22])
                             (''overflow='' @ [CHR 0x22] @ ''visible'' @ [CHR 0x22]) svg
           in (None, write_file html_path_2 (svg_to_html ev svg) fs)))"

subsection \<open>Structured markup branch (lines 168 to 195)\<close>

definition marker :: string where
  "marker = ''const text =''"

definition balance_repair :: "string \<Rightarrow> string" where
  "balance_repair outputs =
     (let right_num = count_sub (CHR 0x5C # ''right'') outputs;
          left_num = count_sub (CHR 0x5C # ''left'') outputs
      in if right_num \<noteq> left_num
         then (let outputs = replace (CHR 0x5C # ''right)'') '')''
                               (replace (CHR 0x5C # ''left('') ''('' outputs);
                   outputs = replace (CHR 0x5C # ''right]'') '']''
                               (replace (CHR 0x5C # ''left['') ''['' outputs);
                   outputs = replace (CHR 0x5C # ''right}'') ''}''
                               (replace (CHR 0x5C # ''left{'') ''{'' outputs);
                   outputs = replace (CHR 0x5C # ''right|'') ''|''
                               (replace (CHR 0x5C # ''left|'') ''|'' outputs);
                   outputs = replace (CHR 0x5C # ''right.'') ''.''
                               (replace (CHR 0x5C # ''left.'') ''.'' outputs)
               in outputs)
         else outputs)"

definition strip_quotes :: "string \<Rightarrow> string" where
  "strip_quotes outputs = replace ''$'' [] (replace [CHR 0x22] ''``'' outputs)"

text \<open>One pass of the loop of line 184: the text appended to \<open>gt\<close> for the line \<open>out\<close>.\<close>

definition js_line :: "string \<Rightarrow> string" where
  "js_line out =
     [CHR 0x22] @ replace [CHR 0x5C] [CHR 0x5C, CHR 0x5C] out @ [CHR 0x5C, CHR ''n'']
     @ [CHR 0x22] @ ''+'' @ ''\<newline>''"

definition js_expression :: "string list \<Rightarrow> string" where
  "js_expression outputs_list =
     slice_to_neg 2 (foldl (\<lambda>gt out. gt @ js_line out) [] outputs_list)"

text \<open>\<open>lines[0] + "const text =" + gt + lines[1]\<close>; \<open>lines[1]\<close> raises without a marker.\<close>

definition splice_mmd :: "string \<Rightarrow> string \<Rightarrow> error + string" where
  "splice_mmd template gt =
     (let lines = split_str marker template
      in if length lines < 2 then Inl IndexError
         else Inr (lines ! 0 @ marker @ gt @ lines ! 1))"

definition render_mmd :: "string \<Rightarrow> files \<Rightarrow> error option \<times> files" where
  "render_mmd outputs fs =
     (let html_path = ''./render_tools/'' @ ''/content-mmd-to-html.html'';
          outputs = strip_quotes (balance_repair outputs);
          gt = js_expression (split_str ''\<newline>'' outputs)
      in case read_file html_path fs of
           Inl e \<Rightarrow> (Some e, fs)
         | Inr template \<Rightarrow>
             (case splice_mmd template gt of
                Inl e \<Rightarrow> (Some e, fs)
              | Inr new_web \<Rightarrow> (None, write_file html_path_2 new_web fs)))"

subsection \<open>Diagram branch (lines 197 to 227)\<close>

definition begin_tikz :: string where
  "begin_tikz = CHR 0x5C # ''begin{tikzpicture}''"

definition end_tikz :: string where
  "end_tikz = CHR 0x5C # ''end{tikzpicture}''"

text \<open>
  The loop \<open>while out[-1] == " ": out = out[:-1]\<close>. The index \<open>out[-1]\<close> raises on
  the empty string; a slice is never \<open>None\<close>, so the \<open>break\<close> of line 209 is never
  taken.
\<close>

function strip_trailing :: "string \<Rightarrow> error + string" where
  "strip_trailing out =
     (if out = [] then Inl IndexError
      else if last out = CHR '' '' then strip_trailing (butlast out)
      else Inr out)"
  by pat_completeness auto
termination
  by (relation "measure length") auto

declare strip_trailing.simps [simp del]

text \<open>The body of the loop of line 202: the text appended to \<open>gt\<close> for the line \<open>out\<close>.\<close>

definition tikz_line :: "string \<Rightarrow> error + string" where
  "tikz_line out =
     (if out \<noteq> []
      then (if \<not> contains begin_tikz out \<and> \<not> contains end_tikz out
            then (case strip_trailing out of
                    Inl e \<Rightarrow> Inl e
                  | Inr out \<Rightarrow>
                      (if out \<noteq> []
                       then (if last out \<noteq> CHR '';''
                             then Inr (butlast out @ '';\<newline>'')
                             else Inr (out @ ''\<newline>''))
                       else Inr []))
            else Inr (out @ ''\<newline>''))
      else Inr [])"

fun tikz_loop :: "string \<Rightarrow> string list \<Rightarrow> error + string" where
  "tikz_loop gt [] = Inr gt"
| "tikz_loop gt (out # outputs_list) =
     (case tikz_line out of
        Inl e \<Rightarrow> Inl e
      | Inr t \<Rightarrow> tikz_loop (gt @ t) outputs_list)"

text \<open>\<open>lines[0] + gt + lines[1]\<close>: the marker is not written back.\<close>

definition splice_tikz :: "string \<Rightarrow> string \<Rightarrow> error + string" where
  "splice_tikz template gt =
     (let lines = split_str marker template
      in if length lines < 2 then Inl IndexError
         else Inr (lines ! 0 @ gt @ lines ! 1))"

definition render_tikz :: "env \<Rightarrow> string \<Rightarrow> files \<Rightarrow> error option \<times> files" where
  "render_tikz ev outputs fs =
     (let html_path = ''./render_tools/'' @ ''/tikz.html'';
          outputs = translate (translation_table ev) outputs
      in case tikz_loop [] (split_str ''\<newline>'' outputs) of
           Inl e \<Rightarrow> (Some e, fs)
         | Inr gt \<Rightarrow>
             (case read_file html_path fs of
                Inl e \<Rightarrow> (Some e, fs)
              | Inr template \<Rightarrow>
                  (case splice_tikz template gt of
                     Inl e \<Rightarrow> (Some e, fs)
                   | Inr new_web \<Rightarrow> (None, write_file html_path_2 new_web fs))))"

subsection \<open>Writing the text and rendering (lines 139 to 227)\<close>

text \<open>
  The result is the exception that ended the run, if any, and the files as they are
  then: what was written before an exception stays written.
\<close>

definition render_branches :: "env \<Rightarrow> args \<Rightarrow> string \<Rightarrow> files \<Rightarrow> error option \<times> files" where
  "render_branches ev a outputs fs =
     (case (if contains ''**kern'' outputs then render_music ev outputs fs else (None, fs)) of
        (Some e, fs1) \<Rightarrow> (Some e, fs1)
      | (None, fs1) \<Rightarrow>
          (if type a = ''format'' \<and> \<not> contains ''**kern'' outputs
           then (if \<not> contains begin_tikz outputs
                 then render_mmd outputs fs1
                 else render_tikz ev outputs fs1)
           else (None, fs1)))"

definition ocr_output_path :: string where
  "ocr_output_path = ''ocr_output.txt''"

definition save_and_render :: "env \<Rightarrow> args \<Rightarrow> string \<Rightarrow> files \<Rightarrow> error option \<times> files" where
  "save_and_render ev a decoded fs =
     (let outputs = clean_output (stop_str ev) decoded;
          fs = write_file ocr_output_path outputs fs
      in if render a then render_branches ev a outputs fs else (None, fs))"

subsection \<open>Reference definitions\<close>

text \<open>
  In the words of the specification: a line without its trailing space characters.
  The loop \<open>strip_trailing\<close> of the script is compared with it below.
\<close>

definition spec_rstrip_spaces :: "string \<Rightarrow> string" where
  "spec_rstrip_spaces s = rev (dropWhile (\<lambda>c. c = CHR '' '') (rev s))"

text \<open>
  An environment and two file systems for the concrete runs below: the stop string of
  the "mpt" template, an empty punctuation table, a toolkit that is not installed.
\<close>

definition demo_env :: env where
  "demo_env =
     \<lparr>stop_str = ''<|im_end|>'', translation_table = Map.empty,
      verovio = (\<lambda>s. Inl ToolkitError), svg_to_html = (\<lambda>s. s)\<rparr>"

definition demo_files :: files where
  "demo_files = [''./render_tools//tikz.html'' \<mapsto> ''<script>const text =</script>'']"

definition demo_args :: args where
  "demo_args = \<lparr>type = ''format'', box = None, color = [], render = True\<rparr>"

text \<open>A diagram whose second line is a single space, and a well-formed one.\<close>

definition demo_blank_line :: string where
  "demo_blank_line =
     CHR 0x5C # ''begin{tikzpicture}\<newline> \<newline>'' @ CHR 0x5C # ''end{tikzpicture}''"

definition demo_diagram :: string where
  "demo_diagram =
     CHR 0x5C # ''begin{tikzpicture}\<newline>'' @ CHR 0x5C # ''draw (0,0) -- (1,1);\<newline>''
     @ CHR 0x5C # ''end{tikzpicture}''"

section \<open>Properties\<close>

subsection \<open>Rounding to a double\<close>

lemma round_half_even_le: "q \<le> of_int k \<Longrightarrow> round_half_even q \<le> k"
proof -
  assume h: "q \<le> of_int k"
  have fk: "\<lfloor>q\<rfloor> \<le> k" using h by (simp add: floor_le_iff) 
  show ?thesis
  proof (cases "\<lfloor>q\<rfloor> = k")
    case True
    then have "of_int k \<le> q" by (metis of_int_floor_le)
    with h have "q = of_int k" by simp
    then show ?thesis by (simp add: round_half_even_def)
  next
    case False
    with fk have "\<lfloor>q\<rfloor> + 1 \<le> k" by simp
    then show ?thesis using fk by (simp add: round_half_even_def Let_def)
  qed
qed

lemma round_half_even_nonneg: "0 \<le> q \<Longrightarrow> 0 \<le> round_half_even q"
  by (simp add: round_half_even_def Let_def)

lemma floor_log2_le:
  assumes "0 < q"
  shows "2 powi (floor_log2 q) \<le> q"
proof -
  obtain a b where ab: "quotient_of q = (a, b)" by (cases "quotient_of q")
  have bpos: "0 < b" using ab by (rule quotient_of_denom_pos)
  have q: "q = of_int a / of_int b" using ab by (rule quotient_of_div)
  have apos: "0 < a" using assms bpos q
    by (simp add: zero_less_divide_iff)
  let ?d = "bitlen a - bitlen b"
  show ?thesis
  proof (cases "2 powi ?d \<le> q")
    case True
    then show ?thesis by (simp add: floor_log2_def ab)
  next
    case False
    have la: "(2::int) ^ nat (bitlen a - 1) \<le> a" using bitlen_bounds[OF apos] by simp
    have lb: "b < (2::int) ^ nat (bitlen b)" using bitlen_bounds[OF bpos] by simp
    have la1: "1 \<le> bitlen a" using apos
      by (metis bitlen_eq_zero_iff bitlen_nonneg int_one_le_iff_zero_less less_le not_less)
    have lb0: "0 \<le> bitlen b" by (rule bitlen_nonneg)
    have A: "(2::rat) powi (bitlen a - 1) \<le> of_int a"
    proof -
      have "(of_int ((2::int) ^ nat (bitlen a - 1)) :: rat) \<le> of_int a"
        using la by (simp only: of_int_le_iff)
      then show ?thesis using la1 by (simp add: power_int_def)
    qed
    have B: "(of_int b :: rat) \<le> 2 powi (bitlen b)"
    proof -
      have "(of_int b :: rat) \<le> of_int ((2::int) ^ nat (bitlen b))"
        using lb by (simp only: of_int_le_iff less_imp_le)
      then show ?thesis using lb0 by (simp add: power_int_def)
    qed
    have "(2::rat) powi (?d - 1) = 2 powi (bitlen a - 1) / 2 powi (bitlen b)"
      by (simp add: power_int_diff)
    also have "\<dots> \<le> of_int a / 2 powi (bitlen b)"
      using A by (simp add: divide_right_mono)
    also have "\<dots> \<le> of_int a / of_int b"
      using B apos bpos by (simp add: frac_le)
    finally have "(2::rat) powi (?d - 1) \<le> q" using q by simp
    moreover have "floor_log2 q = ?d - 1" using False by (simp add: floor_log2_def ab)
    ultimately show ?thesis by simp
  qed
qed

lemma round_double_nonneg: "0 \<le> q \<Longrightarrow> 0 \<le> round_double q"
  by (simp add: round_double_def Let_def round_half_even_nonneg sgn_if)

lemma round_double_upper:
  assumes "0 \<le> q" "q \<le> of_int n" "n < 2 ^ 53"
  shows "round_double q \<le> of_int n"
proof (cases "q = 0")
  case True
  then show ?thesis using assms by (simp add: round_double_def)
next
  case False
  then have qpos: "0 < q" using assms by simp
  define e where "e = max (floor_log2 \<bar>q\<bar> - 52) (- 1074)"
  have "2 powi (floor_log2 q) \<le> q" using qpos by (rule floor_log2_le)
  also have "q < 2 powi 53" 
  proof -
    have "(of_int n :: rat) < of_int (2 ^ 53)" using assms(3) by (simp only: of_int_less_iff)
    then show ?thesis using assms(2) by simp
  qed
  finally have lt: "(2::rat) powi (floor_log2 q) < 2 powi 53" .
  have "floor_log2 q < 53"
  proof (rule ccontr)
    assume "\<not> floor_log2 q < 53"
    then have "(2::rat) powi 53 \<le> 2 powi (floor_log2 q)"
      by (intro power_int_increasing) simp_all
    with lt show False by simp
  qed
  then have e0: "e \<le> 0" using qpos by (simp add: e_def)
  have pe: "(2::rat) powi e = 1 / 2 ^ nat (- e)" using e0
    by (simp add: power_int_def field_simps)
  have "q / 2 powi e = q * 2 ^ nat (- e)" by (simp add: pe)
  also have "\<dots> \<le> of_int n * 2 ^ nat (- e)" using assms(2) by simp
  also have "\<dots> = of_int (n * 2 ^ nat (- e))" by simp
  finally have "round_half_even (q / 2 powi e) \<le> n * 2 ^ nat (- e)"
    by (rule round_half_even_le)
  then have "(of_int (round_half_even (q / 2 powi e)) :: rat) \<le> of_int (n * 2 ^ nat (- e))"
    by (simp only: of_int_le_iff)
  then have "of_int (round_half_even (q / 2 powi e)) * 2 powi e \<le> (of_int n :: rat)"
    by (simp add: pe field_simps)
  then show ?thesis using qpos False by (simp add: round_double_def e_def Let_def)
qed

lemma scale_bounds:
  assumes "0 \<le> c" "c \<le> d" "0 < d"
  shows "\<exists>v. scale c d = Inr v \<and> 0 \<le> v \<and> v \<le> 1000"
proof -
  let ?q = "of_int c / of_int d :: rat"
  let ?r = "round_double ?q"
  have q0: "0 \<le> ?q" using assms by simp
  have q1: "?q \<le> of_int 1" using assms by simp
  have r0: "0 \<le> ?r" using q0 by (rule round_double_nonneg)
  have r1: "?r \<le> 1" using round_double_upper[OF q0 q1] by simp
  have nr: "\<not> out_of_range ?r" using r0 r1 by (simp add: out_of_range_def)
  let ?p = "round_double (?r * of_int 1000)"
  have m0: "0 \<le> ?r * of_int 1000" using r0 by simp
  have m1: "?r * of_int 1000 \<le> of_int 1000" using r1 by simp
  have p0: "0 \<le> ?p" using m0 by (rule round_double_nonneg)
  have p1: "?p \<le> 1000" using round_double_upper[OF m0 m1] by simp
  have np: "\<not> out_of_range ?p" using p0 p1 by (simp add: out_of_range_def)
  have "scale c d = Inr \<lfloor>?p\<rfloor>"
    using assms nr np p0 by (simp add: scale_def true_divide_def float_mul_def int_of_float_def Let_def)
  moreover have "0 \<le> \<lfloor>?p\<rfloor>" using p0 by simp
  moreover have "\<lfloor>?p\<rfloor> \<le> 1000" using p1 by (simp add: floor_le_iff)
  ultimately show ?thesis by simp
qed



lemma floor_log2_less:
  assumes "0 < q"
  shows "q < 2 powi (floor_log2 q + 1)"
proof -
  obtain a b where ab: "quotient_of q = (a, b)" by (cases "quotient_of q")
  have bpos: "0 < b" using ab by (rule quotient_of_denom_pos)
  have q: "q = of_int a / of_int b" using ab by (rule quotient_of_div)
  have apos: "0 < a" using assms bpos q
    by (simp add: zero_less_divide_iff)
  let ?d = "bitlen a - bitlen b"
  show ?thesis
  proof (cases "2 powi ?d \<le> q")
    case False
    then have "floor_log2 q = ?d - 1" by (simp add: floor_log2_def ab)
    then show ?thesis using False by simp
  next
    case True
    have la: "a < (2::int) ^ nat (bitlen a)" using bitlen_bounds[OF apos] by simp
    have lb: "(2::int) ^ nat (bitlen b - 1) \<le> b" using bitlen_bounds[OF bpos] by simp
    have la0: "0 \<le> bitlen a" by (rule bitlen_nonneg)
    have lb1: "1 \<le> bitlen b" using bpos
      by (metis bitlen_eq_zero_iff bitlen_nonneg int_one_le_iff_zero_less less_le not_less)
    have A: "of_int a < (2::rat) powi (bitlen a)"
    proof -
      have "(of_int a :: rat) < of_int ((2::int) ^ nat (bitlen a))"
        using la by (simp only: of_int_less_iff)
      then show ?thesis using la0 by (simp add: power_int_def)
    qed
    have B: "(2::rat) powi (bitlen b - 1) \<le> of_int b"
    proof -
      have "(of_int ((2::int) ^ nat (bitlen b - 1)) :: rat) \<le> of_int b"
        using lb by (simp only: of_int_le_iff)
      moreover have "(2::rat) powi (bitlen b - 1) = 2 ^ nat (bitlen b - 1)"
        using lb1 by (simp add: power_int_def)
      ultimately show ?thesis by simp
    qed
    have "q = of_int a / of_int b" by (rule q)
    also have "\<dots> < 2 powi (bitlen a) / of_int b"
      using A bpos by (simp add: divide_strict_right_mono)
    also have "\<dots> \<le> 2 powi (bitlen a) / 2 powi (bitlen b - 1)"
      using B bpos by (intro divide_left_mono mult_pos_pos) simp_all
    also have "\<dots> = 2 powi (bitlen a - (bitlen b - 1))"
      by (rule power_int_diff [symmetric]) simp
    also have "bitlen a - (bitlen b - 1) = ?d + 1"
      by simp
    finally have "q < 2 powi (?d + 1)" .
    moreover have "floor_log2 q = ?d" using True by (simp add: floor_log2_def ab)
    ultimately show ?thesis by simp
  qed
qed

lemma floor_log2_eq:
  assumes "2 powi k \<le> q" "q < 2 powi (k + 1)"
  shows "floor_log2 q = k"
proof -
  have "(0::rat) < 2 powi k" by simp
  then have qpos: "0 < q" using assms(1) by (rule less_le_trans)
  have lo: "2 powi (floor_log2 q) \<le> q" using qpos by (rule floor_log2_le)
  have hi: "q < 2 powi (floor_log2 q + 1)" using qpos by (rule floor_log2_less)
  have "floor_log2 q < k + 1"
  proof (rule ccontr)
    assume "\<not> floor_log2 q < k + 1"
    then have "(2::rat) powi (k + 1) \<le> 2 powi (floor_log2 q)"
      by (intro power_int_increasing) simp_all
    with lo assms(2) show False by simp
  qed
  moreover have "k < floor_log2 q + 1"
  proof (rule ccontr)
    assume "\<not> k < floor_log2 q + 1"
    then have "(2::rat) powi (floor_log2 q + 1) \<le> 2 powi k"
      by (intro power_int_increasing) simp_all
    with hi assms(1) show False by simp
  qed
  ultimately show ?thesis by simp
qed

lemma small_in_range: "\<bar>r\<bar> \<le> 1024 \<Longrightarrow> \<not> out_of_range r"
proof -
  assume h: "\<bar>r\<bar> \<le> 1024"
  have "(2::rat) ^ 10 < 2 ^ 1024" by (rule power_strict_increasing) simp_all
  then show ?thesis using h by (simp add: out_of_range_def)
qed


lemma floor_numeral_div:
  "\<lfloor>numeral a / numeral b :: rat\<rfloor> = numeral a div numeral b"
  using floor_divide_of_int_eq [of "numeral a" "numeral b", where ?'a = rat] by simp

lemma round_double_normal:
  assumes "2 powi k \<le> q" "q < 2 powi (k + 1)" "- 1022 \<le> k"
  shows "round_double q = of_int (round_half_even (q / 2 powi (k - 52))) * 2 powi (k - 52)"
proof -
  have "(0::rat) < 2 powi k" by simp
  then have qpos: "0 < q" using assms(1) by (rule less_le_trans)
  have fl: "floor_log2 q = k" using assms(1,2) by (rule floor_log2_eq)
  have e: "max (k - 52) (- 1074) = k - 52" using assms(3) by simp
  show ?thesis using qpos by (simp add: round_double_def Let_def fl e)
qed

lemma rd_100_1000: "round_double (1 / 10) = 3602879701896397 / 36028797018963968"
  using round_double_normal [of "- 4" "1 / 10"]
  by (simp add: round_half_even_def Let_def floor_numeral_div)

lemma rd_100: "round_double (450359962737049625 / 4503599627370496) = 100"
  using round_double_normal [of 6 "450359962737049625 / 4503599627370496"]
  by (simp add: round_half_even_def Let_def floor_numeral_div)

lemma rd_200_1000: "round_double (1 / 5) = 3602879701896397 / 18014398509481984"
  using round_double_normal [of "- 3" "1 / 5"]
  by (simp add: round_half_even_def Let_def floor_numeral_div)

lemma rd_200: "round_double (450359962737049625 / 2251799813685248) = 200"
  using round_double_normal [of 7 "450359962737049625 / 2251799813685248"]
  by (simp add: round_half_even_def Let_def floor_numeral_div)

lemma scale_100_1000: "scale 100 1000 = Inr 100"
  using small_in_range [of "3602879701896397 / 36028797018963968"] small_in_range [of 100]
  by (simp add: scale_def true_divide_def float_mul_def int_of_float_def rd_100_1000 rd_100)

lemma scale_200_1000: "scale 200 1000 = Inr 200"
  using small_in_range [of "3602879701896397 / 18014398509481984"] small_in_range [of 200]
  by (simp add: scale_def true_divide_def float_mul_def int_of_float_def rd_200_1000 rd_200)

lemma normalize_scenario:
  "normalize_box [100, 100, 200, 200] 1000 1000 = Inr [100, 100, 200, 200]"
  by (simp add: normalize_box_def scale_rect_def scale_at_def scale_100_1000 scale_200_1000)

lemma str_list_scenario: "str_list [100, 100, 200, 200] = ''[100, 100, 200, 200]''"
  by (simp add: str_list_def str_int_def str_nat.simps digit_char_def)

subsection \<open>Coordinate normalisation and the instruction string\<close>

lemma normalize_other_length:
  "length bbox \<noteq> 2 \<Longrightarrow> length bbox \<noteq> 4 \<Longrightarrow> normalize_box bbox w h = Inr bbox"
  by (simp add: normalize_box_def)

lemma scale_zero_divisor: "scale c 0 = Inl ZeroDivisionError"
  by (simp add: scale_def true_divide_def)

lemma scale_at_zero_divisor: "scale_at i 0 bbox = Inl ZeroDivisionError"
  by (simp add: scale_at_def scale_zero_divisor)

lemma scale_at_length: "scale_at i d bbox = Inr b \<Longrightarrow> length b = length bbox"
  by (auto simp: scale_at_def split: sum.splits)

lemma scale_at_bounds:
  assumes "0 \<le> bbox ! i" "bbox ! i \<le> d" "0 < d"
  shows "\<exists>v. scale_at i d bbox = Inr (bbox[i := v]) \<and> 0 \<le> v \<and> v \<le> 1000"
proof -
  obtain v where "scale (bbox ! i) d = Inr v" "0 \<le> v" "v \<le> 1000"
    using scale_bounds [OF assms] by blast
  then show ?thesis by (auto simp: scale_at_def)
qed

lemma normalize_zero_width:
  assumes "length bbox = 2 \<or> length bbox = 4"
  shows "normalize_box bbox 0 h = Inl ZeroDivisionError"
  using assms
  by (auto simp: normalize_box_def scale_point_def scale_rect_def scale_at_zero_divisor)

lemma normalize_zero_height:
  assumes "length bbox = 2 \<or> length bbox = 4" "0 \<le> bbox ! 0" "bbox ! 0 \<le> w" "0 < w"
  shows "normalize_box bbox w 0 = Inl ZeroDivisionError"
proof -
  obtain v where v: "scale_at 0 w bbox = Inr (bbox[0 := v])"
    using scale_at_bounds [OF assms(2,3,4)] by blast
  show ?thesis using assms(1)
    by (auto simp: normalize_box_def scale_point_def scale_rect_def v scale_at_zero_divisor)
qed

lemma normalize_point_range:
  assumes "0 < w" "0 < h" "0 \<le> x" "x \<le> w" "0 \<le> y" "y \<le> h"
  shows "\<exists>x' y'. normalize_box [x, y] w h = Inr [x', y']
           \<and> 0 \<le> x' \<and> x' \<le> 1000 \<and> 0 \<le> y' \<and> y' \<le> 1000"
proof -
  obtain x' where x': "scale x w = Inr x'" "0 \<le> x'" "x' \<le> 1000"
    using scale_bounds [of x w] assms by blast
  obtain y' where y': "scale y h = Inr y'" "0 \<le> y'" "y' \<le> 1000"
    using scale_bounds [of y h] assms by blast
  have "normalize_box [x, y] w h = Inr [x', y']"
    by (simp add: normalize_box_def scale_point_def scale_at_def x' y')
  then show ?thesis using x' y' by blast
qed

lemma normalize_rect_range:
  assumes "0 < w" "0 < h" "0 \<le> x1" "x1 \<le> w" "0 \<le> y1" "y1 \<le> h"
    "0 \<le> x2" "x2 \<le> w" "0 \<le> y2" "y2 \<le> h"
  shows "\<exists>a b c d. normalize_box [x1, y1, x2, y2] w h = Inr [a, b, c, d]
           \<and> 0 \<le> a \<and> a \<le> 1000 \<and> 0 \<le> b \<and> b \<le> 1000
           \<and> 0 \<le> c \<and> c \<le> 1000 \<and> 0 \<le> d \<and> d \<le> 1000"
proof -
  obtain a where a: "scale x1 w = Inr a" "0 \<le> a" "a \<le> 1000"
    using scale_bounds [of x1 w] assms by blast
  obtain b where b: "scale y1 h = Inr b" "0 \<le> b" "b \<le> 1000"
    using scale_bounds [of y1 h] assms by blast
  obtain c where c: "scale x2 w = Inr c" "0 \<le> c" "c \<le> 1000"
    using scale_bounds [of x2 w] assms by blast
  obtain d where d: "scale y2 h = Inr d" "0 \<le> d" "d \<le> 1000"
    using scale_bounds [of y2 h] assms by blast
  have "normalize_box [x1, y1, x2, y2] w h = Inr [a, b, c, d]"
    by (simp add: normalize_box_def scale_rect_def scale_at_def a b c d)
  then show ?thesis using a b c d by blast
qed

lemma list_of_length_2: "length xs = 2 \<Longrightarrow> \<exists>x y. xs = [x, y]"
  by (cases xs; cases "tl xs") auto

lemma list_of_length_4: "length xs = 4 \<Longrightarrow> \<exists>a b c d. xs = [a, b, c, d]"
proof -
  assume "length xs = 4"
  then have "length xs = Suc (Suc (Suc (Suc 0)))" by simp
  then show ?thesis by (auto simp: length_Suc_conv)
qed

text \<open>
  Claim C5. With a positive width and height, a box of two or four coordinates, each
  between 0 and the width (indices 0 and 2) or the height (indices 1 and 3), is
  normalised without error, and every coordinate of the result is an integer between
  0 and 1000.
\<close>
theorem normalize_box_range:
  assumes "0 < w" and "0 < h"
    and "length bbox = 2 \<or> length bbox = 4"
    and "\<forall>i < length bbox. 0 \<le> bbox ! i \<and> bbox ! i \<le> (if even i then w else h)"
  shows "\<exists>b. normalize_box bbox w h = Inr b \<and> length b = length bbox
           \<and> (\<forall>v \<in> set b. 0 \<le> v \<and> v \<le> 1000)"
  using assms(3)
proof
  assume l: "length bbox = 2"
  then obtain x y where xy: "bbox = [x, y]" using list_of_length_2 by blast
  have "0 \<le> x \<and> x \<le> w" using assms(4) xy by (auto dest: spec [of _ 0])
  moreover have "0 \<le> y \<and> y \<le> h" using assms(4) xy by (auto dest: spec [of _ 1])
  ultimately show ?thesis
    using normalize_point_range [of w h x y] assms(1,2) xy by auto
next
  assume l: "length bbox = 4"
  then obtain x1 y1 x2 y2 where b: "bbox = [x1, y1, x2, y2]" using list_of_length_4 by blast
  have "0 \<le> x1 \<and> x1 \<le> w" using assms(4) b by (auto dest: spec [of _ 0])
  moreover have "0 \<le> y1 \<and> y1 \<le> h" using assms(4) b by (auto dest: spec [of _ 1])
  moreover have "0 \<le> x2 \<and> x2 \<le> w" using assms(4) b by (auto dest: spec [of _ 2])
  moreover have "0 \<le> y2 \<and> y2 \<le> h" using assms(4) b by (auto dest: spec [of _ 3])
  ultimately show ?thesis
    using normalize_rect_range [of w h x1 y1 x2 y2] assms(1,2) b by auto
qed


theorem normalize_box_range_witness:
  "\<exists>b. normalize_box [100, 100, 200, 200] 1000 1000 = Inr b \<and> length b = 4
     \<and> (\<forall>v \<in> set b. 0 \<le> v \<and> v \<le> 1000)"
  using normalize_box_range [of 1000 1000 "[100, 100, 200, 200]"]
  by (simp add: nth_Cons' All_less_Suc numeral_eq_Suc)

text \<open>
  Claim C9. The box [100, 100, 200, 200] on a 1000 by 1000 image is normalised to
  [100, 100, 200, 200]; with the task type "format" (and no color) the instruction
  string is the box prefix followed by the base instruction.
\<close>
theorem scenario_box_format:
  "normalize_box [100, 100, 200, 200] 1000 1000 = Inr [100, 100, 200, 200]
   \<and> instruction \<lparr>type = ''format'', box = Some [100, 100, 200, 200],
                   color = [], render = False\<rparr> 1000 1000
       = Inr ''[100, 100, 200, 200] OCR with format: ''"
  by (simp add: normalize_scenario str_list_scenario instruction_def box_block_def
      color_block_def base_instruction_def)

text \<open>
  Claim C1 as stated fails: with a box and the color "red" the instruction string
  carries the color prefix, and the box prefix is not there.
\<close>
theorem box_and_color_counterexample:
  "instruction \<lparr>type = ''format'', box = Some [100, 100, 200, 200],
                 color = ''red'', render = False\<rparr> 1000 1000
     = Inr ''[red] OCR with format: ''
   \<and> \<not> prefix (str_list [100, 100, 200, 200] @ '' '') ''[red] OCR with format: ''"
  by (simp add: normalize_scenario str_list_scenario instruction_def box_block_def
      color_block_def base_instruction_def)

text \<open>
  Claim C1, amended. When both a box and a color are supplied and the normalisation of
  the box raises no error, exactly one prefix is applied to the base instruction, and
  it is the color prefix: the assignment of line 88 or 90 replaces the string built in
  the box block.
\<close>
theorem color_overrides_box:
  assumes "box a = Some bbox" and "color a \<noteq> []" and "normalize_box bbox w h = Inr b"
  shows "instruction a w h = Inr (''['' @ color a @ ''] '' @ base_instruction a)"
  using assms
  by (simp add: instruction_def box_block_def color_block_def base_instruction_def)

theorem color_overrides_box_witness:
  "instruction \<lparr>type = ''ocr'', box = Some [100, 100, 200, 200], color = ''green'',
                 render = False\<rparr> 1000 1000
     = Inr ''[green] OCR: ''"
  using color_overrides_box [of "\<lparr>type = ''ocr'', box = Some [100, 100, 200, 200],
      color = ''green'', render = False\<rparr>" "[100, 100, 200, 200]" 1000 1000
      "[100, 100, 200, 200]"]
  by (simp add: normalize_scenario base_instruction_def)




text \<open>
  Claim C4 as stated fails: a list of three coordinates is accepted without any error,
  and a zero width raises ZeroDivisionError.
\<close>
theorem invalid_box_counterexample:
  "normalize_box [10, 20, 30] 640 480 = Inr [10, 20, 30]
   \<and> normalize_box [10, 20] 0 480 = Inl ZeroDivisionError"
  by (simp add: normalize_other_length normalize_zero_width)

text \<open>
  Claim C4, amended. A list of a length other than 2 and 4 raises no error and is
  returned unchanged, also on an image of width or height zero. For a list of length 2
  or 4 a zero width raises ZeroDivisionError at the first coordinate; a zero height
  raises ZeroDivisionError at the second coordinate when the first one lies within a
  positive width.
\<close>
theorem normalizer_errors:
  "(length bbox \<noteq> 2 \<and> length bbox \<noteq> 4 \<longrightarrow> normalize_box bbox w h = Inr bbox)
   \<and> (length bbox = 2 \<or> length bbox = 4 \<longrightarrow>
        normalize_box bbox 0 h = Inl ZeroDivisionError)
   \<and> ((length bbox = 2 \<or> length bbox = 4) \<and> 0 \<le> bbox ! 0 \<and> bbox ! 0 \<le> w \<and> 0 < w \<longrightarrow>
        normalize_box bbox w 0 = Inl ZeroDivisionError)"
  using normalize_other_length [of bbox w h] normalize_zero_width [of bbox h]
    normalize_zero_height [of bbox w]
  by blast

theorem normalizer_errors_witness:
  "normalize_box [10, 20, 30] 0 0 = Inr [10, 20, 30]
   \<and> normalize_box [10, 20] 0 480 = Inl ZeroDivisionError
   \<and> normalize_box [10, 20, 30, 40] 640 0 = Inl ZeroDivisionError"
  using normalizer_errors [of "[10, 20, 30]" 0 0] normalizer_errors [of "[10, 20]" 0 480]
    normalizer_errors [of "[10, 20, 30, 40]" 640 0]
  by simp

subsection \<open>The diagram branch, line by line\<close>

lemma rstrip_snoc_space: "spec_rstrip_spaces (ys @ '' '') = spec_rstrip_spaces ys"
  by (simp add: spec_rstrip_spaces_def)

lemma rstrip_snoc_other: "y \<noteq> CHR '' '' \<Longrightarrow> spec_rstrip_spaces (ys @ [y]) = ys @ [y]"
  by (simp add: spec_rstrip_spaces_def)

lemma strip_trailing_eq:
  "strip_trailing out =
     (if spec_rstrip_spaces out = [] then Inl IndexError else Inr (spec_rstrip_spaces out))"
proof (induction out rule: strip_trailing.induct)
  case (1 out)
  show ?case
  proof (cases "out = []")
    case True
    then show ?thesis by (simp add: strip_trailing.simps spec_rstrip_spaces_def)
  next
    case False
    then obtain ys y where out: "out = ys @ [y]" by (metis rev_exhaust)
    show ?thesis
    proof (cases "y = CHR '' ''")
      case True
      have "strip_trailing out = strip_trailing ys"
        using out True by (subst strip_trailing.simps) simp
      also have "\<dots> = (if spec_rstrip_spaces ys = [] then Inl IndexError
                         else Inr (spec_rstrip_spaces ys))"
        using "1.IH" False out True by simp
      finally show ?thesis using out True by (simp add: rstrip_snoc_space)
    next
      case False
      have "strip_trailing out = Inr out"
        using out False by (subst strip_trailing.simps) simp
      then show ?thesis using out False by (simp add: rstrip_snoc_other)
    qed
  qed
qed

lemma rstrip_spaces_only: "spec_rstrip_spaces (replicate n (CHR '' '')) = []"
  by (simp add: spec_rstrip_spaces_def)

lemma contains_first_char: "contains (c # sub) s \<Longrightarrow> c \<in> set s"
  by (induction s) auto

lemma spaces_no_marker:
  "\<not> contains begin_tikz (replicate n (CHR '' ''))"
  "\<not> contains end_tikz (replicate n (CHR '' ''))"
  by (auto simp: begin_tikz_def end_tikz_def dest!: contains_first_char)

lemma space_only_run:
  "save_and_render demo_env demo_args demo_blank_line demo_files
     = (Some IndexError, demo_files(ocr_output_path \<mapsto> demo_blank_line))"
proof -
  have "clean_output (stop_str demo_env) demo_blank_line = demo_blank_line"
    by code_simp
  moreover have "tikz_loop [] (split_str ''\<newline>''
        (translate (translation_table demo_env) demo_blank_line)) = Inl IndexError"
    by code_simp
  moreover have "\<not> contains ''**kern'' demo_blank_line"
    by code_simp
  moreover have "contains begin_tikz demo_blank_line"
    by code_simp
  moreover have "render demo_args" "type demo_args = ''format''"
    by (simp_all add: demo_args_def)
  ultimately show ?thesis
    by (simp add: save_and_render_def render_branches_def render_tikz_def write_file_def)
qed

text \<open>
  Claim C3 fails on the code. A line of one or more spaces is not reduced to the empty
  string: when the loop has removed the last space, its test \<open>out[-1]\<close> indexes
  the empty string and raises IndexError. In a whole run on a diagram with such a
  line the exception ends the run after the plain-text file is written.
\<close>

theorem space_only_line_raises:
  "tikz_line (replicate (Suc n) (CHR '' '')) = Inl IndexError
   \<and> fst (save_and_render demo_env demo_args demo_blank_line demo_files) = Some IndexError"
proof -
  have "replicate (Suc n) (CHR '' '') \<noteq> []" by simp
  moreover have "strip_trailing (replicate (Suc n) (CHR '' '')) = Inl IndexError"
    by (simp only: strip_trailing_eq rstrip_spaces_only simp_thms if_True)
  ultimately have "tikz_line (replicate (Suc n) (CHR '' '')) = Inl IndexError"
    using spaces_no_marker [of "Suc n"] by (simp only: tikz_line_def) simp
  then show ?thesis by (simp only: space_only_run fst_conv simp_thms)
qed

text \<open>
  Claim C2 as stated fails: a line that already ends with two semicolons is passed on
  as it is, so the processed line ends with ";;".
\<close>

theorem double_semicolon_counterexample:
  "''x;;'' \<noteq> [] \<and> \<not> contains begin_tikz ''x;;'' \<and> \<not> contains end_tikz ''x;;''
   \<and> tikz_line ''x;;'' = Inr ''x;;\<newline>''"
  by code_simp

text \<open>
  Claim C2, amended. For a non-empty line without a tikzpicture marker whose content
  after the removal of the trailing spaces is not empty and ends with ";", the
  processed line is that content followed by one newline: nothing is appended and
  nothing is deleted.
\<close>

theorem tikz_line_terminated:
  assumes "out \<noteq> []"
    and "\<not> contains begin_tikz out" and "\<not> contains end_tikz out"
    and "spec_rstrip_spaces out \<noteq> []"
    and "last (spec_rstrip_spaces out) = CHR '';''"
  shows "tikz_line out = Inr (spec_rstrip_spaces out @ ''\<newline>'')"
  using assms by (simp add: tikz_line_def strip_trailing_eq)

theorem tikz_line_terminated_witness:
  "tikz_line (CHR 0x5C # ''draw (0,0) -- (1,1);  '')
     = Inr (CHR 0x5C # ''draw (0,0) -- (1,1);\<newline>'')"
proof -
  have s: "spec_rstrip_spaces (CHR 0x5C # ''draw (0,0) -- (1,1);  '')
             = CHR 0x5C # ''draw (0,0) -- (1,1);''"
    by code_simp
  have b: "\<not> contains begin_tikz (CHR 0x5C # ''draw (0,0) -- (1,1);  '')" by code_simp
  have e: "\<not> contains end_tikz (CHR 0x5C # ''draw (0,0) -- (1,1);  '')" by code_simp
  show ?thesis
    using tikz_line_terminated [of "CHR 0x5C # ''draw (0,0) -- (1,1);  ''"] s b e by simp
qed

text \<open>
  For a line that does not end with ";" the script appends ";" to \<open>out[:-1]\<close>, not to
  \<open>out\<close>: the last character of the content is lost.
\<close>

lemma tikz_line_drops_last_character:
  "tikz_line (CHR 0x5C # ''draw (0,0) -- (1,1)'')
     = Inr (CHR 0x5C # ''draw (0,0) -- (1,1;\<newline>'')"
  by code_simp

subsection \<open>Balance repair and the plain-text file\<close>

text \<open>
  Claim C7. A text with as many "\right" as "\left" is left unchanged by the balance
  repair; in the unbalanced text A\left(x the macro "\left(" is replaced by "(".
\<close>

theorem balance_repair_balanced:
  "(count_sub (CHR 0x5C # ''right'') text = count_sub (CHR 0x5C # ''left'') text
      \<longrightarrow> balance_repair text = text)
   \<and> balance_repair (''A'' @ CHR 0x5C # ''left(x'') = ''A(x''"
proof
  show "count_sub (CHR 0x5C # ''right'') text = count_sub (CHR 0x5C # ''left'') text
          \<longrightarrow> balance_repair text = text"
    by (simp add: balance_repair_def)
  show "balance_repair (''A'' @ CHR 0x5C # ''left(x'') = ''A(x''"
    by code_simp
qed

theorem balance_repair_balanced_witness:
  "count_sub (CHR 0x5C # ''right'') (''A'' @ CHR 0x5C # ''left(x'' @ CHR 0x5C # ''right)'')
     = count_sub (CHR 0x5C # ''left'') (''A'' @ CHR 0x5C # ''left(x'' @ CHR 0x5C # ''right)'')
   \<and> balance_repair (''A'' @ CHR 0x5C # ''left(x'' @ CHR 0x5C # ''right)'')
     = ''A'' @ CHR 0x5C # ''left(x'' @ CHR 0x5C # ''right)''"
proof -
  have c: "count_sub (CHR 0x5C # ''right'') (''A'' @ CHR 0x5C # ''left(x'' @ CHR 0x5C # ''right)'')
         = count_sub (CHR 0x5C # ''left'') (''A'' @ CHR 0x5C # ''left(x'' @ CHR 0x5C # ''right)'')"
    by code_simp
  show ?thesis
    using balance_repair_balanced [of "''A'' @ CHR 0x5C # ''left(x'' @ CHR 0x5C # ''right)''"] c
    by blast
qed

lemma paths_differ: "ocr_output_path \<noteq> html_path_2"
  by (simp add: ocr_output_path_def html_path_2_def)

lemma render_music_keeps:
  "p \<noteq> html_path_2 \<Longrightarrow> snd (render_music ev outputs fs) p = fs p"
  by (simp add: render_music_def write_file_def Let_def split: sum.splits)

lemma render_mmd_keeps:
  "p \<noteq> html_path_2 \<Longrightarrow> snd (render_mmd outputs fs) p = fs p"
  by (simp add: render_mmd_def write_file_def Let_def split: sum.splits)

lemma render_tikz_keeps:
  "p \<noteq> html_path_2 \<Longrightarrow> snd (render_tikz ev outputs fs) p = fs p"
  by (simp add: render_tikz_def write_file_def Let_def split: sum.splits)

lemma render_branches_keeps:
  assumes "p \<noteq> html_path_2"
  shows "snd (render_branches ev a outputs fs) p = fs p"
proof (cases "contains ''**kern'' outputs")
  case True
  obtain st fs1 where r: "render_music ev outputs fs = (st, fs1)"
    by (cases "render_music ev outputs fs")
  have "fs1 p = fs p" using render_music_keeps [OF assms, of ev outputs fs] r by simp
  then show ?thesis using True r by (cases st) (simp_all add: render_branches_def)
next
  case False
  then show ?thesis using assms
    by (simp add: render_branches_def render_mmd_keeps render_tikz_keeps)
qed

text \<open>
  Claim C6. The cleaned text is written to the plain-text file before the render flag
  is looked at: the rendering branches start from the files with that write done, and
  whatever they do, and whether they end with an exception or not, the plain-text file
  holds the whole text at the end of the run.
\<close>

theorem text_written_before_rendering:
  "snd (save_and_render ev a decoded fs) ocr_output_path
     = Some (clean_output (stop_str ev) decoded)
   \<and> save_and_render ev a decoded fs
     = (if render a
        then render_branches ev a (clean_output (stop_str ev) decoded)
               (fs(ocr_output_path \<mapsto> clean_output (stop_str ev) decoded))
        else (None, fs(ocr_output_path \<mapsto> clean_output (stop_str ev) decoded)))"
  using paths_differ
  by (simp add: save_and_render_def Let_def render_branches_keeps write_file_def)

theorem text_written_before_rendering_witness:
  "fst (save_and_render demo_env demo_args '' x = 1 <|im_end|>'' Map.empty) = Some IOError
   \<and> snd (save_and_render demo_env demo_args '' x = 1 <|im_end|>'' Map.empty) ocr_output_path
       = Some ''x = 1''"
proof -
  have c: "clean_output (stop_str demo_env) '' x = 1 <|im_end|>'' = ''x = 1''"
    by code_simp
  have "fst (save_and_render demo_env demo_args '' x = 1 <|im_end|>'' Map.empty) = Some IOError"
    by code_simp
  moreover have "snd (save_and_render demo_env demo_args '' x = 1 <|im_end|>'' Map.empty)
      ocr_output_path = Some (clean_output (stop_str demo_env) '' x = 1 <|im_end|>'')"
    using text_written_before_rendering [of demo_env demo_args "'' x = 1 <|im_end|>''" Map.empty]
    by (rule conjunct1)
  ultimately show ?thesis by (simp only: c simp_thms)
qed

subsection \<open>Splicing into the template\<close>

lemma split_from_no_sep:
  "\<not> contains sep s \<Longrightarrow> split_from sep cur s = [cur @ s]"
  by (induction s arbitrary: cur) auto

lemma prefix_contains: "prefix sep s \<Longrightarrow> contains sep s"
  by (cases s) auto

lemma split_from_first:
  assumes "sep \<noteq> []" and "\<not> contains sep (pre @ butlast sep)"
  shows "split_from sep cur (pre @ sep @ post) = (cur @ pre) # split_from sep [] post"
  using assms(2)
proof (induction pre arbitrary: cur)
  case Nil
  obtain c ms where sep: "sep = c # ms" using assms(1) by (cases sep) auto
  then show ?case by simp
next
  case (Cons p ps)
  have "\<not> prefix sep ((p # ps) @ sep @ post)"
  proof
    assume pre: "prefix sep ((p # ps) @ sep @ post)"
    have "butlast sep @ [last sep] = sep" using assms(1) by (rule append_butlast_last_id)
    then have "(p # ps) @ sep @ post = ((p # ps) @ butlast sep) @ (last sep # post)"
      by (metis append.assoc append_Cons append_Nil)
    then have "prefix ((p # ps) @ butlast sep) ((p # ps) @ sep @ post)"
      by (metis prefixI)
    moreover have "length sep \<le> length ((p # ps) @ butlast sep)" by simp
    ultimately have "prefix sep ((p # ps) @ butlast sep)"
      using pre by (rule prefix_length_prefix [rotated])
    then have "contains sep ((p # ps) @ butlast sep)" by (rule prefix_contains)
    with Cons.prems show False by simp
  qed
  moreover have "\<not> contains sep (ps @ butlast sep)" using Cons.prems by simp
  ultimately show ?case using Cons.IH [of "cur @ [p]"] by simp
qed

lemma split_str_once:
  assumes "sep \<noteq> []" and "\<not> contains sep (pre @ butlast sep)" and "\<not> contains sep post"
  shows "split_str sep (pre @ sep @ post) = [pre, post]"
  using split_from_first [OF assms(1,2), of "[]" post] split_from_no_sep [OF assms(3), of "[]"]
  by (simp add: split_str_def)

lemma marker_not_empty: "marker \<noteq> []"
  by (simp add: marker_def)

lemma splice_tikz_once:
  assumes "\<not> contains marker (pre @ butlast marker)" and "\<not> contains marker post"
  shows "splice_tikz (pre @ marker @ post) gt = Inr (pre @ gt @ post)"
  using split_str_once [OF marker_not_empty assms] by (simp add: splice_tikz_def)

lemma splice_mmd_once:
  assumes "\<not> contains marker (pre @ butlast marker)" and "\<not> contains marker post"
  shows "splice_mmd (pre @ marker @ post) gt = Inr (pre @ marker @ gt @ post)"
  using split_str_once [OF marker_not_empty assms] by (simp add: splice_mmd_def)

text \<open>
  Claim C8 as stated fails: the diagram branch does not write the marker back. On the
  same template and text the structured-markup splice keeps "const text =" and the
  diagram splice drops it.
\<close>

theorem tikz_marker_counterexample:
  "snd (render_tikz demo_env demo_diagram demo_files) html_path_2
     = Some (''<script>'' @ demo_diagram @ ''\<newline></script>'')
   \<and> splice_tikz ''<script>const text =</script>'' ''x;\<newline>''
     = Inr ''<script>x;\<newline></script>''
   \<and> splice_mmd ''<script>const text =</script>'' ''x;\<newline>''
     = Inr ''<script>const text =x;\<newline></script>''"
  by code_simp

text \<open>
  Claim C8, amended. When the diagram template holds the marker exactly once, the
  written HTML is the template text before the marker, then the processed text as it
  is, then the template text after the marker; the marker itself is not written.
\<close>

theorem tikz_marker_replaced:
  assumes "fs (''./render_tools/'' @ ''/tikz.html'') = Some (pre @ marker @ post)"
    and "\<not> contains marker (pre @ butlast marker)" and "\<not> contains marker post"
    and "tikz_loop [] (split_str ''\<newline>'' (translate (translation_table ev) outputs)) = Inr gt"
  shows "render_tikz ev outputs fs = (None, fs(html_path_2 \<mapsto> pre @ gt @ post))"
  using assms(1,4) splice_tikz_once [OF assms(2,3), of gt]
  by (simp add: render_tikz_def read_file_def write_file_def)

theorem tikz_marker_replaced_witness:
  "render_tikz demo_env demo_diagram demo_files
     = (None, demo_files(html_path_2 \<mapsto> ''<script>'' @ (demo_diagram @ ''\<newline>'') @ ''</script>''))"
proof -
  have f: "demo_files (''./render_tools/'' @ ''/tikz.html'')
             = Some (''<script>'' @ marker @ ''</script>'')"
    by (simp add: demo_files_def marker_def)
  have p: "\<not> contains marker (''<script>'' @ butlast marker)" by code_simp
  have q: "\<not> contains marker ''</script>''" by code_simp
  have g: "tikz_loop [] (split_str ''\<newline>'' (translate (translation_table demo_env) demo_diagram))
             = Inr (demo_diagram @ ''\<newline>'')"
    by code_simp
  show ?thesis
    by (rule tikz_marker_replaced
          [where fs = demo_files and pre = "''<script>''" and post = "''</script>''"
             and ev = demo_env and outputs = demo_diagram, OF f p q g])
qed

end
